theory Spec2Isabelle
  imports Main
begin

section \<open>The tables of \<^verbatim>\<open>database.py\<close>\<close>

text \<open>
  The three mapped classes of \<^verbatim>\<open>database.py\<close> are records, one field per column
  the code reads or writes. The field prefixes \<open>s_\<close>, \<open>a_\<close> and \<open>p_\<close> stand for
  \<^verbatim>\<open>Student.\<close>, \<^verbatim>\<open>Activity.\<close> and \<^verbatim>\<open>Participation.\<close>. Python integers are
  \<^typ>\<open>int\<close>, nullable columns are options. The columns \<^verbatim>\<open>created_at\<close> and
  \<^verbatim>\<open>joined_at\<close> hold the wall-clock time of the insertion; no function of the
  repository reads or updates them and they are left out of the records.
\<close>

record Student =
  s_id :: int
  s_email :: string
  s_name :: "string option"
  s_grade :: "int option"
  s_class_section :: "string option"

record Activity =
  a_id :: int
  a_name :: string
  a_description :: "string option"
  a_schedule :: "string option"
  a_max_participants :: int

record Participation =
  p_id :: int
  p_student_id :: int
  p_activity_id :: int

text \<open>
  The contents of the database: each table is the list of its rows in the order of
  insertion. \<open>participations_seq\<close> is the counter that SQLite keeps for a table declared
  with \<^verbatim>\<open>sqlite_autoincrement\<close> (\<^verbatim>\<open>Participation.__table_args__\<close> under the default
  \<^verbatim>\<open>DATABASE_URL\<close>): the largest key the table has ever held.
\<close>

record store =
  students :: "Student list"
  activities :: "Activity list"
  participations :: "Participation list"
  participations_seq :: int

definition empty_store :: store where
  "empty_store = \<lparr>students = [], activities = [], participations = [], participations_seq = 0\<rparr>"

text \<open>
  Key generation. \<^verbatim>\<open>Student.id\<close> and \<^verbatim>\<open>Activity.id\<close> are plain integer primary
  keys: a new row gets 1 in an empty table and the largest key plus one otherwise.
  \<^verbatim>\<open>Participation.id\<close> is an autoincrement key: one more than the largest key the
  table ever held.
\<close>

definition next_rowid :: "int list \<Rightarrow> int" where
  "next_rowid ids = (case ids of [] \<Rightarrow> 1 | x # xs \<Rightarrow> fold max xs x + 1)"

definition next_autoincrement :: "int \<Rightarrow> int list \<Rightarrow> int" where
  "next_autoincrement seq ids = fold max ids seq + 1"

section \<open>The session\<close>

text \<open>
  \<^verbatim>\<open>SessionLocal = sessionmaker(autocommit=False, autoflush=False, bind=engine)\<close>.
  A session works in a transaction of its own. \<open>persisted\<close> is what the database holds
  for every later session; \<open>txn\<close> is what the statements of this session see and
  write; \<open>sess_new\<close> and \<open>sess_deleted\<close> are the objects handed to \<^verbatim>\<open>db.add\<close>
  and \<^verbatim>\<open>db.delete\<close> that no flush has written yet. With \<^verbatim>\<open>autoflush=False\<close> a
  query reads \<open>txn\<close> as it is and writes nothing; with \<^verbatim>\<open>autocommit=False\<close> only
  \<^verbatim>\<open>db.commit()\<close> moves \<open>txn\<close> to \<open>persisted\<close>, and \<^verbatim>\<open>db.close()\<close> drops what
  was not committed.
\<close>

datatype pending =
    NewStudent string
  | NewActivity string "string option" "string option" int
  | NewParticipation int int

record session =
  persisted :: store
  txn :: store
  sess_new :: "pending list"
  sess_deleted :: "Participation list"

definition SessionLocal :: "store \<Rightarrow> session" where
  "SessionLocal st = \<lparr>persisted = st, txn = st, sess_new = [], sess_deleted = []\<rparr>"

definition add :: "pending \<Rightarrow> session \<Rightarrow> session" where
  "add obj db = db\<lparr>sess_new := sess_new db @ [obj]\<rparr>"

definition delete :: "Participation \<Rightarrow> session \<Rightarrow> session" where
  "delete obj db = db\<lparr>sess_deleted := sess_deleted db @ [obj]\<rparr>"

text \<open>The INSERT and DELETE statements a flush sends, one per pending object.\<close>

fun insert_row :: "pending \<Rightarrow> store \<Rightarrow> store" where
  "insert_row (NewStudent email) st =
     st\<lparr>students := students st @
        [\<lparr>s_id = next_rowid (map s_id (students st)), s_email = email,
          s_name = None, s_grade = None, s_class_section = None\<rparr>]\<rparr>"
| "insert_row (NewActivity name description schedule max_participants) st =
     st\<lparr>activities := activities st @
        [\<lparr>a_id = next_rowid (map a_id (activities st)), a_name = name,
          a_description = description, a_schedule = schedule,
          a_max_participants = max_participants\<rparr>]\<rparr>"
| "insert_row (NewParticipation student_id activity_id) st =
     (let k = next_autoincrement (participations_seq st) (map p_id (participations st))
      in st\<lparr>participations := participations st @
             [\<lparr>p_id = k, p_student_id = student_id, p_activity_id = activity_id\<rparr>],
            participations_seq := k\<rparr>)"

definition delete_row :: "Participation \<Rightarrow> store \<Rightarrow> store" where
  "delete_row obj st =
     st\<lparr>participations := filter (\<lambda>p. p_id p \<noteq> p_id obj) (participations st)\<rparr>"

definition flush :: "session \<Rightarrow> session" where
  "flush db =
     db\<lparr>txn := fold delete_row (sess_deleted db) (fold insert_row (sess_new db) (txn db)),
        sess_new := [], sess_deleted := []\<rparr>"

definition commit :: "session \<Rightarrow> session" where
  "commit db = (let db' = flush db in db'\<lparr>persisted := txn db'\<rparr>)"

definition close :: "session \<Rightarrow> store" where
  "close db = persisted db"

text \<open>
  \<^verbatim>\<open>get_db\<close>: the dependency of every route. It opens a session, hands it to the
  handler and closes it on every exit path, also when the handler raises; the handler's
  result (an exception is a value here) comes back with the database contents after the
  call.
\<close>

definition get_db :: "(session \<Rightarrow> 'r \<times> session) \<Rightarrow> store \<Rightarrow> 'r \<times> store" where
  "get_db handler st = (let (r, db) = handler (SessionLocal st) in (r, close db))"

section \<open>The queries of \<^verbatim>\<open>app.py\<close>\<close>

text \<open>\<^verbatim>\<open>db.query(Activity).filter(Activity.name == activity_name).first()\<close>\<close>

definition query_activity :: "string \<Rightarrow> session \<Rightarrow> Activity option" where
  "query_activity activity_name db =
     find (\<lambda>a. a_name a = activity_name) (activities (txn db))"

text \<open>\<^verbatim>\<open>db.query(Student).filter(Student.email == email).first()\<close>\<close>

definition query_student :: "string \<Rightarrow> session \<Rightarrow> Student option" where
  "query_student email db = find (\<lambda>s. s_email s = email) (students (txn db))"

text \<open>
  \<^verbatim>\<open>db.query(Participation).filter(Participation.student_id == student.id,
  Participation.activity_id == activity.id).first()\<close>
\<close>

definition query_participation :: "int \<Rightarrow> int \<Rightarrow> session \<Rightarrow> Participation option" where
  "query_participation student_id activity_id db =
     find (\<lambda>p. p_student_id p = student_id \<and> p_activity_id p = activity_id)
       (participations (txn db))"

text \<open>
  \<^verbatim>\<open>db.query(Participation).filter(Participation.activity_id == activity.id).count()\<close>
\<close>

definition count_participants :: "int \<Rightarrow> session \<Rightarrow> int" where
  "count_participants activity_id db =
     int (length (filter (\<lambda>p. p_activity_id p = activity_id) (participations (txn db))))"

section \<open>The routes of \<^verbatim>\<open>app.py\<close>\<close>

datatype HTTPException = HTTPException (status_code: int) (detail: string)

text \<open>The value of one key of the dictionary that \<^verbatim>\<open>get_activities\<close> returns.\<close>

record activity_info =
  description :: "string option"
  schedule :: "string option"
  max_participants :: int
  participants :: int

definition get_activities :: "session \<Rightarrow> (string \<rightharpoonup> activity_info)" where
  "get_activities db =
     fold (\<lambda>activity result.
             result(a_name activity \<mapsto>
               \<lparr>description = a_description activity,
                schedule = a_schedule activity,
                max_participants = a_max_participants activity,
                participants = count_participants (a_id activity) db\<rparr>))
       (activities (txn db)) Map.empty"

text \<open>
  ``Get or create student'': the lookup by email and, when it finds nothing,
  \<^verbatim>\<open>Student(email=email)\<close>, \<^verbatim>\<open>db.add(student)\<close>, \<^verbatim>\<open>db.flush()\<close>. The flush
  gives the object its key; it is the row the flush wrote last into the table.
\<close>

definition get_or_create_student :: "string \<Rightarrow> session \<Rightarrow> Student \<times> session" where
  "get_or_create_student email db =
     (case query_student email db of
        Some student \<Rightarrow> (student, db)
      | None \<Rightarrow>
          (let db' = flush (add (NewStudent email) db)
           in (last (students (txn db')), db')))"

definition signup_for_activity ::
  "string \<Rightarrow> string \<Rightarrow> session \<Rightarrow> (HTTPException + string) \<times> session" where
  "signup_for_activity activity_name email db =
     (case query_activity activity_name db of
        None \<Rightarrow> (Inl (HTTPException 404 ''Activity not found''), db)
      | Some activity \<Rightarrow>
          (let (student, db1) = get_or_create_student email db
           in case query_participation (s_id student) (a_id activity) db1 of
                Some existing_participation \<Rightarrow>
                  (Inl (HTTPException 400 ''Student is already signed up for this activity''),
                   db1)
              | None \<Rightarrow>
                  if count_participants (a_id activity) db1 \<ge> a_max_participants activity
                  then (Inl (HTTPException 400 ''Activity is full''), db1)
                  else (Inr (''Signed up '' @ email @ '' for '' @ activity_name),
                        commit (add (NewParticipation (s_id student) (a_id activity)) db1))))"

definition unregister_from_activity ::
  "string \<Rightarrow> string \<Rightarrow> session \<Rightarrow> (HTTPException + string) \<times> session" where
  "unregister_from_activity activity_name email db =
     (case query_activity activity_name db of
        None \<Rightarrow> (Inl (HTTPException 404 ''Activity not found''), db)
      | Some activity \<Rightarrow>
          (case query_student email db of
             None \<Rightarrow> (Inl (HTTPException 404 ''Student not found''), db)
           | Some student \<Rightarrow>
               (case query_participation (s_id student) (a_id activity) db of
                  None \<Rightarrow>
                    (Inl (HTTPException 400 ''Student is not signed up for this activity''), db)
                | Some participation \<Rightarrow>
                    (Inr (''Unregistered '' @ email @ '' from '' @ activity_name),
                     commit (delete participation db)))))"

text \<open>The three routes as a caller sees them: the handler run under \<^verbatim>\<open>get_db\<close>.\<close>

definition list_request :: "store \<Rightarrow> (string \<rightharpoonup> activity_info) \<times> store" where
  "list_request = get_db (\<lambda>db. (get_activities db, db))"

definition signup_request :: "string \<Rightarrow> string \<Rightarrow> store \<Rightarrow> (HTTPException + string) \<times> store" where
  "signup_request activity_name email = get_db (signup_for_activity activity_name email)"

definition unregister_request ::
  "string \<Rightarrow> string \<Rightarrow> store \<Rightarrow> (HTTPException + string) \<times> store" where
  "unregister_request activity_name email = get_db (unregister_from_activity activity_name email)"

text \<open>The spec's error kinds are the two status codes the routes raise.\<close>

definition NotFound :: "HTTPException + string \<Rightarrow> bool" where
  "NotFound r = (case r of Inl e \<Rightarrow> status_code e = 404 | Inr _ \<Rightarrow> False)"

definition Conflict :: "HTTPException + string \<Rightarrow> bool" where
  "Conflict r = (case r of Inl e \<Rightarrow> status_code e = 400 | Inr _ \<Rightarrow> False)"

section \<open>\<^verbatim>\<open>init_db\<close>\<close>

definition activities_data :: "pending list" where
  "activities_data =
     [NewActivity ''Chess Club''
        (Some ''Learn strategies and compete in chess tournaments'')
        (Some ''Fridays, 3:30 PM - 5:00 PM'') 12,
      NewActivity ''Programming Class''
        (Some ''Learn programming fundamentals and build software projects'')
        (Some ''Tuesdays and Thursdays, 3:30 PM - 4:30 PM'') 20,
      NewActivity ''Gym Class''
        (Some ''Physical education and sports activities'')
        (Some ''Mondays, Wednesdays, Fridays, 2:00 PM - 3:00 PM'') 30,
      NewActivity ''Soccer Team''
        (Some ''Join the school soccer team and compete in matches'')
        (Some ''Tuesdays and Thursdays, 4:00 PM - 5:30 PM'') 22,
      NewActivity ''Basketball Team''
        (Some ''Practice and play basketball with the school team'')
        (Some ''Wednesdays and Fridays, 3:30 PM - 5:00 PM'') 15,
      NewActivity ''Art Club''
        (Some ''Explore your creativity through painting and drawing'')
        (Some ''Thursdays, 3:30 PM - 5:00 PM'') 15,
      NewActivity ''Drama Club''
        (Some ''Act, direct, and produce plays and performances'')
        (Some ''Mondays and Wednesdays, 4:00 PM - 5:30 PM'') 20,
      NewActivity ''Math Club''
        (Some ''Solve challenging problems and participate in math competitions'')
        (Some ''Tuesdays, 3:30 PM - 4:30 PM'') 10,
      NewActivity ''Debate Team''
        (Some ''Develop public speaking and argumentation skills'')
        (Some ''Fridays, 4:00 PM - 5:30 PM'') 12]"

definition sample_participants :: "(string \<times> string list) list" where
  "sample_participants =
     [(''Chess Club'', [''michael@mergington.edu'', ''daniel@mergington.edu'']),
      (''Programming Class'', [''emma@mergington.edu'', ''sophia@mergington.edu'']),
      (''Gym Class'', [''john@mergington.edu'', ''olivia@mergington.edu'']),
      (''Soccer Team'', [''liam@mergington.edu'', ''noah@mergington.edu'']),
      (''Basketball Team'', [''ava@mergington.edu'', ''mia@mergington.edu'']),
      (''Art Club'', [''amelia@mergington.edu'', ''harper@mergington.edu'']),
      (''Drama Club'', [''ella@mergington.edu'', ''scarlett@mergington.edu'']),
      (''Math Club'', [''james@mergington.edu'', ''benjamin@mergington.edu'']),
      (''Debate Team'', [''charlotte@mergington.edu'', ''henry@mergington.edu''])]"

text \<open>The inner loop, \<^verbatim>\<open>for email in emails\<close>.\<close>

fun enrol :: "Activity \<Rightarrow> string list \<Rightarrow> session \<Rightarrow> session" where
  "enrol activity [] db = db"
| "enrol activity (email # emails) db =
     (let (student, db1) = get_or_create_student email db
      in enrol activity emails
           (add (NewParticipation (s_id student) (a_id activity)) db1))"

text \<open>
  The outer loop, \<^verbatim>\<open>for activity_name, emails in sample_participants.items()\<close>, with
  its guard \<^verbatim>\<open>if activity:\<close>. Its query reads the table as the transaction has it:
  the activities handed to \<^verbatim>\<open>db.add\<close> before the loop are still pending when the
  loop starts, since nothing has flushed them and the session does not flush by itself.
\<close>

fun seed :: "(string \<times> string list) list \<Rightarrow> session \<Rightarrow> session" where
  "seed [] db = db"
| "seed ((activity_name, emails) # rest) db =
     (case query_activity activity_name db of
        None \<Rightarrow> seed rest db
      | Some activity \<Rightarrow> seed rest (enrol activity emails db))"

text \<open>
  \<^verbatim>\<open>init_db\<close> returns nothing; the model returns the line it prints and the database
  contents after \<^verbatim>\<open>db.close()\<close>. \<^verbatim>\<open>create_tables\<close> creates the tables that are
  missing and changes no row: a store always has its three tables. The \<^verbatim>\<open>except\<close>
  branch (rollback, then re-raise) needs a statement that raises; the inserts of the
  \<^verbatim>\<open>try\<close> block go into an empty activities table with nine distinct names and
  meet no constraint, so the model has no such run.
\<close>

definition init_db :: "store \<Rightarrow> string \<times> store" where
  "init_db st =
     (let db = SessionLocal st
      in case activities (txn db) of
           first # _ \<Rightarrow> (''Database already initialized'', close db)
         | [] \<Rightarrow>
             (let db1 = fold add activities_data db;
                  db2 = seed sample_participants db1;
                  db3 = commit db2
              in (''Database initialized with sample data'', close db3)))"

section \<open>Requests in sequence\<close>

text \<open>
  The requests are served one at a time, each in a session of its own; two sessions
  open at once are not part of this model.
\<close>

datatype request =
    ListActivities
  | Signup string string
  | Unregister string string
  | Startup

fun serve :: "request \<Rightarrow> store \<Rightarrow> store" where
  "serve ListActivities st = snd (list_request st)"
| "serve (Signup activity_name email) st = snd (signup_request activity_name email st)"
| "serve (Unregister activity_name email) st = snd (unregister_request activity_name email st)"
| "serve Startup st = snd (init_db st)"

section \<open>The constraints of the schema\<close>

text \<open>
  Primary keys, the two \<^verbatim>\<open>unique=True\<close> columns and the two foreign keys of
  \<^verbatim>\<open>Participation\<close>.
\<close>

definition wf_store :: "store \<Rightarrow> bool" where
  "wf_store st \<longleftrightarrow>
     distinct (map s_id (students st)) \<and>
     distinct (map s_email (students st)) \<and>
     distinct (map a_id (activities st)) \<and>
     distinct (map a_name (activities st)) \<and>
     distinct (map p_id (participations st)) \<and>
     (\<forall>p \<in> set (participations st).
        p_student_id p \<in> set (map s_id (students st)) \<and>
        p_activity_id p \<in> set (map a_id (activities st)))"

text \<open>No activity holds more participants than its capacity.\<close>

definition capacity_ok :: "store \<Rightarrow> bool" where
  "capacity_ok st \<longleftrightarrow>
     (\<forall>a \<in> set (activities st).
        int (length (filter (\<lambda>p. p_activity_id p = a_id a) (participations st)))
          \<le> a_max_participants a)"

section \<open>Auxiliary definitions\<close>

text \<open>
  The key of the student a signup works with: the key of the row found by email, or
  the key the flush gives to the row it creates.
\<close>

definition student_key :: "string \<Rightarrow> store \<Rightarrow> int" where
  "student_key email st =
     (case find (\<lambda>s. s_email s = email) (students st) of
        Some s \<Rightarrow> s_id s
      | None \<Rightarrow> next_rowid (map s_id (students st)))"

text \<open>The dictionary value \<^verbatim>\<open>get_activities\<close> builds for one row of the table.\<close>

definition info_of :: "store \<Rightarrow> Activity \<Rightarrow> activity_info" where
  "info_of st a =
     \<lparr>description = a_description a, schedule = a_schedule a,
      max_participants = a_max_participants a,
      participants = int (length (filter (\<lambda>p. p_activity_id p = a_id a) (participations st)))\<rparr>"

text \<open>
  The database after ``get or create student'': unchanged when the email is known, with
  the new row otherwise.
\<close>

definition ensure_student :: "string \<Rightarrow> store \<Rightarrow> store" where
  "ensure_student email st =
     (case find (\<lambda>s. s_email s = email) (students st) of
        Some _ \<Rightarrow> st
      | None \<Rightarrow> insert_row (NewStudent email) st)"

text \<open>
  Two small databases for concrete runs: one student enrolled in one activity, which
  is full in \<open>full_club\<close> and has a free place in \<open>open_club\<close>.
\<close>

definition full_club :: store where
  "full_club =
     \<lparr>students = [\<lparr>s_id = 1, s_email = ''a@e.edu'', s_name = None, s_grade = None,
                    s_class_section = None\<rparr>],
      activities = [\<lparr>a_id = 1, a_name = ''Chess Club'', a_description = None,
                      a_schedule = None, a_max_participants = 1\<rparr>],
      participations = [\<lparr>p_id = 1, p_student_id = 1, p_activity_id = 1\<rparr>],
      participations_seq = 1\<rparr>"

definition open_club :: store where
  "open_club = full_club\<lparr>activities :=
     [\<lparr>a_id = 1, a_name = ''Chess Club'', a_description = None,
       a_schedule = None, a_max_participants = 2\<rparr>]\<rparr>"

section \<open>Keys are fresh\<close>

lemma fold_max_ge: "(y::int) \<le> fold max xs y"
  by (induction xs arbitrary: y) (auto intro: order_trans [OF max.cobounded2])

lemma fold_max_mem: "(x::int) \<in> set xs \<Longrightarrow> x \<le> fold max xs y"
proof (induction xs arbitrary: y)
  case Nil
  then show ?case by simp
next
  case (Cons a xs)
  show ?case
  proof (cases "x = a")
    case True
    have "a \<le> max a y" by simp
    also have "\<dots> \<le> fold max xs (max a y)" by (rule fold_max_ge)
    finally show ?thesis using True by simp
  next
    case False
    with Cons show ?thesis by simp
  qed
qed

lemma next_rowid_greater: "x \<in> set ids \<Longrightarrow> x < next_rowid ids"
proof (cases ids)
  case Nil
  assume "x \<in> set ids"
  with Nil show ?thesis by simp
next
  case (Cons a as)
  assume "x \<in> set ids"
  with Cons have "x = a \<or> x \<in> set as" by simp
  then have "x \<le> fold max as a"
    using fold_max_ge [of a as] fold_max_mem [of x as a] by blast
  with Cons show ?thesis by (simp add: next_rowid_def)
qed

lemma next_rowid_fresh: "next_rowid ids \<notin> set ids"
  using next_rowid_greater [of "next_rowid ids" ids] by blast

lemma next_autoincrement_greater: "x \<in> set ids \<Longrightarrow> x < next_autoincrement seq ids"
  using fold_max_mem [of x ids seq] by (simp add: next_autoincrement_def)

lemma next_autoincrement_fresh: "next_autoincrement seq ids \<notin> set ids"
  using next_autoincrement_greater [of "next_autoincrement seq ids" ids seq] by blast

section \<open>The requests in closed form\<close>

text \<open>
  What each request returns and leaves in the database, with the session unfolded:
  the equations below are the definitions of the handlers run under \<^verbatim>\<open>get_db\<close>,
  simplified.
\<close>

lemma signup_request_unfold:
  "signup_request activity_name email st =
     (case find (\<lambda>a. a_name a = activity_name) (activities st) of
        None \<Rightarrow> (Inl (HTTPException 404 ''Activity not found''), st)
      | Some activity \<Rightarrow>
          (case find (\<lambda>p. p_student_id p = student_key email st \<and> p_activity_id p = a_id activity)
                  (participations st) of
             Some _ \<Rightarrow>
               (Inl (HTTPException 400 ''Student is already signed up for this activity''), st)
           | None \<Rightarrow>
               if int (length (filter (\<lambda>p. p_activity_id p = a_id activity) (participations st)))
                    \<ge> a_max_participants activity
               then (Inl (HTTPException 400 ''Activity is full''), st)
               else (Inr (''Signed up '' @ email @ '' for '' @ activity_name),
                     insert_row (NewParticipation (student_key email st) (a_id activity))
                       (case find (\<lambda>s. s_email s = email) (students st) of
                          Some _ \<Rightarrow> st
                        | None \<Rightarrow> insert_row (NewStudent email) st))))"
  by (simp add: signup_request_def get_db_def SessionLocal_def signup_for_activity_def
      query_activity_def query_student_def query_participation_def count_participants_def
      get_or_create_student_def flush_def add_def commit_def close_def student_key_def
      Let_def split: option.split)

lemma unregister_request_unfold:
  "unregister_request activity_name email st =
     (case find (\<lambda>a. a_name a = activity_name) (activities st) of
        None \<Rightarrow> (Inl (HTTPException 404 ''Activity not found''), st)
      | Some activity \<Rightarrow>
          (case find (\<lambda>s. s_email s = email) (students st) of
             None \<Rightarrow> (Inl (HTTPException 404 ''Student not found''), st)
           | Some student \<Rightarrow>
               (case find (\<lambda>p. p_student_id p = s_id student \<and> p_activity_id p = a_id activity)
                       (participations st) of
                  None \<Rightarrow>
                    (Inl (HTTPException 400 ''Student is not signed up for this activity''), st)
                | Some participation \<Rightarrow>
                    (Inr (''Unregistered '' @ email @ '' from '' @ activity_name),
                     delete_row participation st))))"
  by (simp add: unregister_request_def get_db_def SessionLocal_def unregister_from_activity_def
      query_activity_def query_student_def query_participation_def
      flush_def delete_def commit_def close_def Let_def split: option.split)

lemma seed_no_activity: "activities (txn db) = [] \<Longrightarrow> seed xs db = db"
  by (induction xs) (auto simp: query_activity_def)

lemma txn_fold_add: "txn (fold add xs db) = txn db"
  by (induction xs arbitrary: db) (auto simp: add_def)

lemma sess_new_fold_add: "sess_new (fold add xs db) = sess_new db @ xs"
  by (induction xs arbitrary: db) (auto simp: add_def)

lemma sess_deleted_fold_add: "sess_deleted (fold add xs db) = sess_deleted db"
  by (induction xs arbitrary: db) (auto simp: add_def)

lemma init_db_initialized:
  "activities st \<noteq> [] \<Longrightarrow> init_db st = (''Database already initialized'', st)"
  by (cases "activities st") (simp_all add: init_db_def SessionLocal_def close_def)

lemma init_db_fresh:
  "activities st = [] \<Longrightarrow>
   init_db st = (''Database initialized with sample data'', fold insert_row activities_data st)"
  by (simp add: init_db_def Let_def seed_no_activity txn_fold_add sess_new_fold_add
      sess_deleted_fold_add commit_def flush_def close_def SessionLocal_def)

section \<open>The listing as a map\<close>


lemma list_request_unfold:
  "list_request st = (fold (\<lambda>a m. m(a_name a \<mapsto> info_of st a)) (activities st) Map.empty, st)"
  by (simp add: list_request_def get_db_def SessionLocal_def get_activities_def
      count_participants_def close_def info_of_def)

lemma fold_upd_Some:
  "fold (\<lambda>a m. m(f a \<mapsto> g a)) xs m0 k = Some v \<Longrightarrow>
   (\<exists>a \<in> set xs. f a = k \<and> g a = v) \<or> m0 k = Some v"
  by (induction xs arbitrary: m0) (fastforce split: if_splits)+

lemma fold_upd_notin:
  "k \<notin> f ` set xs \<Longrightarrow> fold (\<lambda>a m. m(f a \<mapsto> g a)) xs m0 k = m0 k"
  by (induction xs arbitrary: m0) auto

lemma fold_upd_distinct:
  "distinct (map f xs) \<Longrightarrow> a \<in> set xs \<Longrightarrow>
   fold (\<lambda>a m. m(f a \<mapsto> g a)) xs m0 (f a) = Some (g a)"
proof (induction xs arbitrary: m0)
  case Nil
  then show ?case by simp
next
  case (Cons x xs)
  show ?case
  proof (cases "a \<in> set xs")
    case True
    with Cons show ?thesis by simp
  next
    case False
    with Cons.prems have ax: "a = x" and nx: "f x \<notin> f ` set xs" by auto
    have "fold (\<lambda>a m. m(f a \<mapsto> g a)) xs (m0(f x \<mapsto> g x)) (f x) = (m0(f x \<mapsto> g x)) (f x)"
      using nx by (rule fold_upd_notin)
    with ax show ?thesis by (simp del: fun_upd_apply add: fun_upd_same)
  qed
qed

lemma fold_upd_dom:
  "dom (fold (\<lambda>a m. m(f a \<mapsto> g a)) xs m0) = f ` set xs \<union> dom m0"
  by (induction xs arbitrary: m0) auto

section \<open>The schema's constraints are kept\<close>

lemma find_SomeD: "find P xs = Some x \<Longrightarrow> x \<in> set xs \<and> P x"
  by (induction xs) (auto split: if_splits)

lemma find_append_None: "find P xs = None \<Longrightarrow> find P (xs @ ys) = find P ys"
  by (induction xs) (auto split: if_splits)

lemma find_append_Some: "find P xs = Some x \<Longrightarrow> find P (xs @ ys) = Some x"
  by (induction xs) (auto split: if_splits)

lemma student_key_find:
  "find (\<lambda>s. s_email s = email) (students st) = Some s \<Longrightarrow> student_key email st = s_id s"
  by (simp add: student_key_def)

lemma student_key_mem:
  "find (\<lambda>s. s_email s = email) (students st) = Some s \<Longrightarrow>
   student_key email st \<in> set (map s_id (students st))"
  by (auto simp: student_key_def dest: find_SomeD)

lemma student_key_new:
  "find (\<lambda>s. s_email s = email) (students st) = None \<Longrightarrow>
   student_key email st = next_rowid (map s_id (students st))"
  by (simp add: student_key_def)

lemma wf_insert_student:
  assumes "wf_store st" and "find (\<lambda>s. s_email s = email) (students st) = None"
  shows "wf_store (insert_row (NewStudent email) st)"
proof -
  from assms(2) have "email \<notin> set (map s_email (students st))"
    by (auto simp: find_None_iff)
  with assms(1) show ?thesis
    using next_rowid_fresh [of "map s_id (students st)"]
    by (auto simp: wf_store_def)
qed

lemma wf_insert_participation:
  assumes "wf_store st" and "sid \<in> set (map s_id (students st))"
    and "aid \<in> set (map a_id (activities st))"
  shows "wf_store (insert_row (NewParticipation sid aid) st)"
  using assms next_autoincrement_fresh [of "participations_seq st" "map p_id (participations st)"]
  by (auto simp: wf_store_def Let_def)

lemma wf_delete_row: "wf_store st \<Longrightarrow> wf_store (delete_row p st)"
  by (auto simp: wf_store_def delete_row_def distinct_map_filter)

lemma wf_signup_request:
  assumes "wf_store st"
  shows "wf_store (snd (signup_request activity_name email st))"
proof (cases "find (\<lambda>a. a_name a = activity_name) (activities st)")
  case None
  with assms show ?thesis by (simp add: signup_request_unfold)
next
  case (Some a)
  then have a: "a_id a \<in> set (map a_id (activities st))"
    by (auto dest: find_SomeD)
  show ?thesis
  proof (cases "find (\<lambda>s. s_email s = email) (students st)")
    case None
    let ?st1 = "insert_row (NewStudent email) st"
    have w1: "wf_store ?st1" using assms None by (rule wf_insert_student)
    have k: "student_key email st \<in> set (map s_id (students ?st1))"
      using None by (simp add: student_key_def)
    have a1: "a_id a \<in> set (map a_id (activities ?st1))" using a by simp
    have "wf_store (insert_row (NewParticipation (student_key email st) (a_id a)) ?st1)"
      using w1 k a1 by (rule wf_insert_participation)
    with assms Some None show ?thesis
      by (simp add: signup_request_unfold split: option.split)
  next
    case (Some s)
    then have k: "student_key email st \<in> set (map s_id (students st))"
      by (rule student_key_mem)
    have "wf_store (insert_row (NewParticipation (student_key email st) (a_id a)) st)"
      using assms k a by (rule wf_insert_participation)
    with assms Some \<open>find _ (activities st) = Some a\<close> show ?thesis
      by (simp add: signup_request_unfold split: option.split)
  qed
qed

lemma wf_unregister_request:
  "wf_store st \<Longrightarrow> wf_store (snd (unregister_request activity_name email st))"
  by (simp add: unregister_request_unfold wf_delete_row split: option.split)

lemma wf_list_request: "wf_store st \<Longrightarrow> wf_store (snd (list_request st))"
  by (simp add: list_request_unfold)

lemma fold_insert_activities_data:
  "activities st = [] \<Longrightarrow>
   students (fold insert_row activities_data st) = students st \<and>
   participations (fold insert_row activities_data st) = participations st \<and>
   participations_seq (fold insert_row activities_data st) = participations_seq st \<and>
   map a_id (activities (fold insert_row activities_data st)) = [1, 2, 3, 4, 5, 6, 7, 8, 9] \<and>
   map a_name (activities (fold insert_row activities_data st)) =
     [''Chess Club'', ''Programming Class'', ''Gym Class'', ''Soccer Team'', ''Basketball Team'',
      ''Art Club'', ''Drama Club'', ''Math Club'', ''Debate Team''] \<and>
   map a_max_participants (activities (fold insert_row activities_data st)) =
     [12, 20, 30, 22, 15, 15, 20, 10, 12]"
  by (simp add: activities_data_def next_rowid_def)

lemma wf_init_db:
  assumes "wf_store st"
  shows "wf_store (snd (init_db st))"
proof (cases "activities st = []")
  case False
  with assms show ?thesis by (simp add: init_db_initialized)
next
  case True
  with assms have "participations st = []"
    by (cases "participations st") (auto simp: wf_store_def)
  with assms True show ?thesis
    using fold_insert_activities_data [OF True]
    by (simp add: init_db_fresh wf_store_def)
qed

text \<open>
  A fresh database satisfies the constraints. Its first start-up leaves the nine
  activities and nobody enrolled: the sample loop finds none of the activities, which
  are written by the commit after it.
\<close>

lemma wf_empty_store: "wf_store empty_store"
  by (simp add: wf_store_def empty_store_def)

lemma init_db_empty_store:
  "students (snd (init_db empty_store)) = [] \<and>
   participations (snd (init_db empty_store)) = [] \<and>
   map a_name (activities (snd (init_db empty_store))) =
     [''Chess Club'', ''Programming Class'', ''Gym Class'', ''Soccer Team'', ''Basketball Team'',
      ''Art Club'', ''Drama Club'', ''Math Club'', ''Debate Team'']"
proof -
  have e: "activities empty_store = []"
    by (simp add: empty_store_def)
  from init_db_fresh [OF e] fold_insert_activities_data [OF e] show ?thesis
    by (simp add: empty_store_def)
qed

section \<open>The capacity invariant\<close>

lemma capacity_empty_store: "capacity_ok empty_store"
  by (simp add: capacity_ok_def empty_store_def)


lemma distinct_map_eq:
  "distinct (map f xs) \<Longrightarrow> x \<in> set xs \<Longrightarrow> y \<in> set xs \<Longrightarrow> f x = f y \<Longrightarrow> x = y"
  by (auto simp: distinct_map dest: inj_onD)

lemma insert_participation_fields:
  "students (insert_row (NewParticipation sid aid) st) = students st"
  "activities (insert_row (NewParticipation sid aid) st) = activities st"
  "participations (insert_row (NewParticipation sid aid) st) =
     participations st @
       [\<lparr>p_id = next_autoincrement (participations_seq st) (map p_id (participations st)),
         p_student_id = sid, p_activity_id = aid\<rparr>]"
  by (simp_all add: Let_def)

lemma insert_student_fields:
  "activities (insert_row (NewStudent email) st) = activities st"
  "participations (insert_row (NewStudent email) st) = participations st"
  "participations_seq (insert_row (NewStudent email) st) = participations_seq st"
  by simp_all

lemma capacity_insert_participation:
  assumes d: "distinct (map a_id (activities st))"
    and c: "capacity_ok st"
    and a: "a \<in> set (activities st)"
    and free: "int (length (filter (\<lambda>p. p_activity_id p = a_id a) (participations st)))
                 < a_max_participants a"
  shows "capacity_ok (insert_row (NewParticipation sid (a_id a)) st)"
  unfolding capacity_ok_def
proof
  fix b
  assume "b \<in> set (activities (insert_row (NewParticipation sid (a_id a)) st))"
  then have b: "b \<in> set (activities st)" by (simp add: Let_def)
  show "int (length (filter (\<lambda>p. p_activity_id p = a_id b)
               (participations (insert_row (NewParticipation sid (a_id a)) st))))
          \<le> a_max_participants b"
  proof (cases "a_id b = a_id a")
    case True
    with d a b have "b = a" by (auto dest: distinct_map_eq)
    with free show ?thesis by (simp add: Let_def)
  next
    case False
    with c b show ?thesis by (auto simp: capacity_ok_def Let_def)
  qed
qed

lemma capacity_insert_student:
  "capacity_ok st \<Longrightarrow> capacity_ok (insert_row (NewStudent email) st)"
  by (simp add: capacity_ok_def)

lemma capacity_delete_row: "capacity_ok st \<Longrightarrow> capacity_ok (delete_row p st)"
proof -
  assume c: "capacity_ok st"
  have le: "length (filter P (filter Q xs)) \<le> length (filter P xs)" for P Q and xs :: "Participation list"
    by (induction xs) auto
  show ?thesis
    unfolding capacity_ok_def delete_row_def
  proof
    fix b
    assume "b \<in> set (activities (st\<lparr>participations := filter (\<lambda>q. p_id q \<noteq> p_id p) (participations st)\<rparr>))"
    then have "b \<in> set (activities st)" by simp
    with c have "int (length (filter (\<lambda>p. p_activity_id p = a_id b) (participations st)))
                   \<le> a_max_participants b"
      by (simp add: capacity_ok_def)
    moreover have "length (filter (\<lambda>p. p_activity_id p = a_id b)
                      (filter (\<lambda>q. p_id q \<noteq> p_id p) (participations st)))
                   \<le> length (filter (\<lambda>p. p_activity_id p = a_id b) (participations st))"
      by (rule le)
    ultimately show "int (length (filter (\<lambda>p. p_activity_id p = a_id b)
        (participations (st\<lparr>participations := filter (\<lambda>q. p_id q \<noteq> p_id p) (participations st)\<rparr>))))
        \<le> a_max_participants b"
      by simp
  qed
qed

lemma capacity_signup_request:
  assumes w: "wf_store st" and c: "capacity_ok st"
  shows "capacity_ok (snd (signup_request activity_name email st))"
proof (cases "find (\<lambda>a. a_name a = activity_name) (activities st)")
  case None
  with c show ?thesis by (simp add: signup_request_unfold)
next
  case (Some a)
  let ?st0 = "case find (\<lambda>s. s_email s = email) (students st) of
                Some _ \<Rightarrow> st | None \<Rightarrow> insert_row (NewStudent email) st"
  have acts: "activities ?st0 = activities st" and parts: "participations ?st0 = participations st"
    by (simp_all split: option.split)
  have c0: "capacity_ok ?st0"
    using c capacity_insert_student [OF c, of email] by (simp split: option.split)
  have d0: "distinct (map a_id (activities ?st0))"
    using w acts by (simp add: wf_store_def)
  have a0: "a \<in> set (activities ?st0)"
    using Some acts by (auto dest: find_SomeD)
  have "capacity_ok (insert_row (NewParticipation (student_key email st) (a_id a)) ?st0)"
    if "int (length (filter (\<lambda>p. p_activity_id p = a_id a) (participations st)))
          < a_max_participants a"
    using d0 c0 a0 that parts by (intro capacity_insert_participation) simp_all
  with c Some show ?thesis
    by (simp add: signup_request_unfold not_le split: option.split)
qed

lemma capacity_unregister_request:
  "capacity_ok st \<Longrightarrow> capacity_ok (snd (unregister_request activity_name email st))"
  by (simp add: unregister_request_unfold capacity_delete_row split: option.split)

lemma capacity_init_db:
  assumes w: "wf_store st" and c: "capacity_ok st"
  shows "capacity_ok (snd (init_db st))"
proof (cases "activities st = []")
  case False
  with c show ?thesis by (simp add: init_db_initialized)
next
  case True
  with w have p: "participations st = []"
    by (cases "participations st") (auto simp: wf_store_def)
  let ?st' = "fold insert_row activities_data st"
  from fold_insert_activities_data [OF True]
  have ps: "participations ?st' = []"
    and ms: "map a_max_participants (activities ?st') = [12, 20, 30, 22, 15, 15, 20, 10, 12]"
    using p by simp_all
  have "0 \<le> a_max_participants b" if "b \<in> set (activities ?st')" for b
  proof -
    from that have "a_max_participants b \<in> set (map a_max_participants (activities ?st'))"
      by simp
    then show ?thesis unfolding ms by auto
  qed
  with ps True show ?thesis
    by (simp add: init_db_fresh capacity_ok_def)
qed

lemma serve_invariant:
  "wf_store st \<and> capacity_ok st \<Longrightarrow> wf_store (serve r st) \<and> capacity_ok (serve r st)"
  by (cases r)
    (simp_all add: wf_signup_request wf_unregister_request wf_init_db capacity_signup_request
      capacity_unregister_request capacity_init_db list_request_unfold)

lemma fold_serve_invariant:
  "wf_store st \<and> capacity_ok st \<Longrightarrow>
   wf_store (fold serve rs st) \<and> capacity_ok (fold serve rs st)"
proof (induction rs arbitrary: st)
  case Nil
  then show ?case by simp
next
  case (Cons r rs)
  from Cons.prems have "wf_store (serve r st) \<and> capacity_ok (serve r st)"
    by (rule serve_invariant)
  then show ?case using Cons.IH by simp
qed

lemma listed_row:
  "fst (list_request st) name = Some info \<Longrightarrow>
   \<exists>a \<in> set (activities st). a_name a = name \<and> info = info_of st a"
  using fold_upd_Some [of a_name "info_of st" "activities st" Map.empty name info]
  by (auto simp: list_request_unfold)

section \<open>Signing up and unregistering, step by step\<close>


lemmas run_simps = signup_request_unfold unregister_request_unfold list_request_unfold
  open_club_def full_club_def student_key_def next_rowid_def next_autoincrement_def info_of_def
  delete_row_def Let_def NotFound_def Conflict_def

lemma ensure_student_fields:
  "activities (ensure_student email st) = activities st"
  "participations (ensure_student email st) = participations st"
  "participations_seq (ensure_student email st) = participations_seq st"
  by (simp_all add: ensure_student_def split: option.split)

lemma ensure_student_find:
  "\<exists>s. find (\<lambda>s. s_email s = email) (students (ensure_student email st)) = Some s \<and>
       s_id s = student_key email st"
  by (cases "find (\<lambda>s. s_email s = email) (students st)")
    (simp_all add: ensure_student_def student_key_def find_append_None)

lemma signup_request_cases:
  "signup_request activity_name email st =
     (case find (\<lambda>a. a_name a = activity_name) (activities st) of
        None \<Rightarrow> (Inl (HTTPException 404 ''Activity not found''), st)
      | Some activity \<Rightarrow>
          (case find (\<lambda>p. p_student_id p = student_key email st \<and> p_activity_id p = a_id activity)
                  (participations st) of
             Some _ \<Rightarrow>
               (Inl (HTTPException 400 ''Student is already signed up for this activity''), st)
           | None \<Rightarrow>
               if int (length (filter (\<lambda>p. p_activity_id p = a_id activity) (participations st)))
                    \<ge> a_max_participants activity
               then (Inl (HTTPException 400 ''Activity is full''), st)
               else (Inr (''Signed up '' @ email @ '' for '' @ activity_name),
                     insert_row (NewParticipation (student_key email st) (a_id activity))
                       (ensure_student email st))))"
  unfolding ensure_student_def by (rule signup_request_unfold)

lemma signup_request_failure:
  "fst (signup_request activity_name email st) = Inl x \<Longrightarrow>
   snd (signup_request activity_name email st) = st"
  by (simp add: signup_request_cases split: option.splits if_splits)

lemma unregister_request_failure:
  "fst (unregister_request activity_name email st) = Inl x \<Longrightarrow>
   snd (unregister_request activity_name email st) = st"
  by (simp add: unregister_request_unfold split: option.splits)

lemma find_None_image: "find (\<lambda>x. f x = k) xs = None \<longleftrightarrow> k \<notin> f ` set xs"
  by (auto simp: find_None_iff)

lemma signup_success_form:
  assumes "signup_request activity_name email st = (Inr m, st1)"
  shows "\<exists>a. find (\<lambda>a. a_name a = activity_name) (activities st) = Some a \<and>
             find (\<lambda>p. p_student_id p = student_key email st \<and> p_activity_id p = a_id a)
               (participations st) = None \<and>
             st1 = insert_row (NewParticipation (student_key email st) (a_id a))
                     (ensure_student email st)"
  using assms by (simp add: signup_request_cases split: option.splits if_splits)

lemma after_signup:
  assumes "st1 = insert_row (NewParticipation k aid) (ensure_student email st)"
  shows "activities st1 = activities st"
    and "students st1 = students (ensure_student email st)"
    and "participations st1 = participations st @
           [\<lparr>p_id = next_autoincrement (participations_seq st) (map p_id (participations st)),
             p_student_id = k, p_activity_id = aid\<rparr>]"
  using assms by (simp_all add: Let_def ensure_student_fields)

lemma filter_fresh_key:
  "filter (\<lambda>q. p_id q \<noteq> next_autoincrement seq (map p_id ps)) ps = ps"
proof -
  have "p_id q \<noteq> next_autoincrement seq (map p_id ps)" if "q \<in> set ps" for q
    using that next_autoincrement_greater [of "p_id q" "map p_id ps" seq] by auto
  then show ?thesis by (simp add: filter_id_conv)
qed

lemma filter_remove1:
  "distinct (map f xs) \<Longrightarrow> p \<in> set xs \<Longrightarrow> filter (\<lambda>q. f q \<noteq> f p) xs = remove1 p xs"
proof (induction xs)
  case Nil
  then show ?case by simp
next
  case (Cons x xs)
  show ?case
  proof (cases "x = p")
    case True
    with Cons.prems have "f p \<notin> f ` set xs" by simp
    then have "f q \<noteq> f p" if "q \<in> set xs" for q
      using that by (metis imageI)
    then have "filter (\<lambda>q. f q \<noteq> f p) xs = xs" by (simp add: filter_id_conv)
    with True show ?thesis by simp
  next
    case False
    with Cons.prems have "p \<in> set xs" and "f x \<noteq> f p" by auto
    with Cons False show ?thesis by auto
  qed
qed

lemma list_request_cong:
  "activities st' = activities st \<Longrightarrow> participations st' = participations st \<Longrightarrow>
   fst (list_request st') = fst (list_request st)"
  by (simp add: list_request_unfold info_of_def)

lemma listed_name:
  "find (\<lambda>a. a_name a = name) (activities st) = Some a \<Longrightarrow>
   \<exists>info. fst (list_request st) name = Some info"
proof -
  assume "find (\<lambda>a. a_name a = name) (activities st) = Some a"
  then have "name \<in> a_name ` set (activities st)"
    by (auto dest: find_SomeD)
  then have "name \<in> dom (fst (list_request st))"
    by (simp add: list_request_unfold fold_upd_dom)
  then show ?thesis by blast
qed

section \<open>Claims\<close>

text \<open>
  C1. For every activity with configured maximum capacity M, the participant count that
  \<^verbatim>\<open>get_activities\<close> reports never exceeds M: from any database that satisfies the
  schema's constraints and holds no activity above its capacity, after any sequence of
  requests (signups that succeed or fail, unregistrations, listings, start-ups), every
  entry of the listing has \<open>participants \<le> max_participants\<close>.
\<close>

theorem capacity_never_exceeded:
  assumes "wf_store st" and "capacity_ok st"
    and "fst (list_request (fold serve rs st)) name = Some info"
  shows "participants info \<le> max_participants info"
proof -
  let ?st' = "fold serve rs st"
  from assms(1,2) have "capacity_ok ?st'"
    using fold_serve_invariant [of st rs] by simp
  moreover from assms(3) obtain a where "a \<in> set (activities ?st')" and "info = info_of ?st' a"
    using listed_row by blast
  ultimately show ?thesis
    by (simp add: capacity_ok_def info_of_def)
qed

theorem capacity_never_exceeded_witness:
  "wf_store open_club \<and> capacity_ok open_club \<and>
   fst (list_request (fold serve [Signup ''Chess Club'' ''b@e.edu'', Signup ''Chess Club'' ''c@e.edu'']
          open_club)) ''Chess Club''
     = Some \<lparr>description = None, schedule = None, max_participants = 2, participants = 2\<rparr> \<and>
   participants \<lparr>description = None, schedule = None, max_participants = 2, participants = 2\<rparr>
     \<le> max_participants
         \<lparr>description = None, schedule = None, max_participants = 2, participants = 2\<rparr>"
proof -
  have w: "wf_store open_club"
    by (simp add: wf_store_def open_club_def full_club_def)
  have c: "capacity_ok open_club"
    by (simp add: capacity_ok_def open_club_def full_club_def)
  have l: "fst (list_request (fold serve [Signup ''Chess Club'' ''b@e.edu'',
             Signup ''Chess Club'' ''c@e.edu''] open_club)) ''Chess Club''
           = Some \<lparr>description = None, schedule = None, max_participants = 2, participants = 2\<rparr>"
    by (simp add: run_simps)
  from capacity_never_exceeded [OF w c l] w c l show ?thesis by simp
qed

text \<open>
  C7. \<^verbatim>\<open>signup_for_activity\<close> fails with NotFound (status 404) exactly when no
  activity has the name; in that case the request leaves the database as it was, and
  the handler returns its session untouched: no student was added, not even inside the
  transaction, and no participation.
\<close>

theorem signup_not_found:
  "(NotFound (fst (signup_request activity_name email st)) \<longleftrightarrow>
      activity_name \<notin> a_name ` set (activities st)) \<and>
   (activity_name \<notin> a_name ` set (activities st) \<longrightarrow>
      signup_request activity_name email st =
        (Inl (HTTPException 404 ''Activity not found''), st) \<and>
      signup_for_activity activity_name email (SessionLocal st) =
        (Inl (HTTPException 404 ''Activity not found''), SessionLocal st))"
proof (cases "find (\<lambda>a. a_name a = activity_name) (activities st)")
  case None
  then have "activity_name \<notin> a_name ` set (activities st)"
    by (simp add: find_None_image)
  with None show ?thesis
    by (simp add: signup_request_cases NotFound_def signup_for_activity_def query_activity_def
        SessionLocal_def)
next
  case (Some a)
  then have "activity_name \<in> a_name ` set (activities st)"
    by (auto dest: find_SomeD)
  with Some show ?thesis
    by (simp add: signup_request_cases NotFound_def split: option.split)
qed

theorem signup_not_found_witness:
  "''Golf'' \<notin> a_name ` set (activities full_club) \<and>
   NotFound (fst (signup_request ''Golf'' ''b@e.edu'' full_club)) \<and>
   signup_request ''Golf'' ''b@e.edu'' full_club =
     (Inl (HTTPException 404 ''Activity not found''), full_club) \<and>
   signup_for_activity ''Golf'' ''b@e.edu'' (SessionLocal full_club) =
     (Inl (HTTPException 404 ''Activity not found''), SessionLocal full_club) \<and>
   ''Chess Club'' \<in> a_name ` set (activities full_club) \<and>
   \<not> NotFound (fst (signup_request ''Chess Club'' ''b@e.edu'' full_club))"
proof -
  have "''Golf'' \<notin> a_name ` set (activities full_club)"
    and "''Chess Club'' \<in> a_name ` set (activities full_club)"
    by (simp_all add: full_club_def)
  with signup_not_found [of "''Golf''" "''b@e.edu''" full_club]
    signup_not_found [of "''Chess Club''" "''b@e.edu''" full_club]
  show ?thesis by (simp add: NotFound_def)
qed

text \<open>
  C9. When the student already has a participation for the activity and the activity is
  at or above its capacity, the signup fails with ``Student is already signed up for
  this activity'', not with ``Activity is full'': the duplicate check comes first.
\<close>

theorem duplicate_before_full:
  assumes "find (\<lambda>a. a_name a = activity_name) (activities st) = Some a"
    and "find (\<lambda>s. s_email s = email) (students st) = Some s"
    and "\<exists>p \<in> set (participations st). p_student_id p = s_id s \<and> p_activity_id p = a_id a"
    and "int (length (filter (\<lambda>p. p_activity_id p = a_id a) (participations st)))
           \<ge> a_max_participants a"
  shows "signup_request activity_name email st =
           (Inl (HTTPException 400 ''Student is already signed up for this activity''), st)"
proof -
  from assms(3) have "find (\<lambda>p. p_student_id p = s_id s \<and> p_activity_id p = a_id a)
                        (participations st) \<noteq> None"
    by (auto simp: find_None_iff)
  with assms(1,2) show ?thesis
    by (auto simp: signup_request_cases student_key_def)
qed

theorem duplicate_before_full_witness:
  "signup_request ''Chess Club'' ''a@e.edu'' full_club =
     (Inl (HTTPException 400 ''Student is already signed up for this activity''), full_club)"
proof -
  let ?a = "\<lparr>a_id = 1, a_name = ''Chess Club'', a_description = None, a_schedule = None,
             a_max_participants = 1\<rparr>"
  let ?s = "\<lparr>s_id = 1, s_email = ''a@e.edu'', s_name = None, s_grade = None,
             s_class_section = None\<rparr>"
  have 1: "find (\<lambda>a. a_name a = ''Chess Club'') (activities full_club) = Some ?a"
    by (simp add: full_club_def)
  have 2: "find (\<lambda>s. s_email s = ''a@e.edu'') (students full_club) = Some ?s"
    by (simp add: full_club_def)
  have 3: "\<exists>p \<in> set (participations full_club).
             p_student_id p = s_id ?s \<and> p_activity_id p = a_id ?a"
    by (simp add: full_club_def)
  have 4: "int (length (filter (\<lambda>p. p_activity_id p = a_id ?a) (participations full_club)))
             \<ge> a_max_participants ?a"
    by (simp add: full_club_def)
  from duplicate_before_full [OF 1 2 3 4] show ?thesis .
qed

text \<open>
  C6. \<^verbatim>\<open>unregister_from_activity\<close> fails with NotFound when no activity has the
  name, with NotFound when no student has the email, with Conflict (status 400) when
  activity and student exist and no participation joins them; every failing call
  leaves the whole database unchanged.
\<close>

theorem unregister_failures:
  "(activity_name \<notin> a_name ` set (activities st) \<longrightarrow>
      NotFound (fst (unregister_request activity_name email st))) \<and>
   (email \<notin> s_email ` set (students st) \<longrightarrow>
      NotFound (fst (unregister_request activity_name email st))) \<and>
   (\<forall>a s. find (\<lambda>a. a_name a = activity_name) (activities st) = Some a \<and>
          find (\<lambda>s. s_email s = email) (students st) = Some s \<and>
          (\<forall>p \<in> set (participations st).
             \<not> (p_student_id p = s_id s \<and> p_activity_id p = a_id a)) \<longrightarrow>
      Conflict (fst (unregister_request activity_name email st))) \<and>
   (\<forall>x. fst (unregister_request activity_name email st) = Inl x \<longrightarrow>
      snd (unregister_request activity_name email st) = st)"
proof (intro conjI impI allI)
  assume "activity_name \<notin> a_name ` set (activities st)"
  then have "find (\<lambda>a. a_name a = activity_name) (activities st) = None"
    by (simp add: find_None_image)
  then show "NotFound (fst (unregister_request activity_name email st))"
    by (simp add: unregister_request_unfold NotFound_def)
next
  assume "email \<notin> s_email ` set (students st)"
  then have "find (\<lambda>s. s_email s = email) (students st) = None"
    by (simp add: find_None_image)
  then show "NotFound (fst (unregister_request activity_name email st))"
    by (simp add: unregister_request_unfold NotFound_def split: option.split)
next
  fix a s
  assume h: "find (\<lambda>a. a_name a = activity_name) (activities st) = Some a \<and>
          find (\<lambda>s. s_email s = email) (students st) = Some s \<and>
          (\<forall>p \<in> set (participations st).
             \<not> (p_student_id p = s_id s \<and> p_activity_id p = a_id a))"
  then have "find (\<lambda>p. p_student_id p = s_id s \<and> p_activity_id p = a_id a)
               (participations st) = None"
    by (simp add: find_None_iff)
  with h show "Conflict (fst (unregister_request activity_name email st))"
    by (simp add: unregister_request_unfold Conflict_def)
next
  fix x
  assume "fst (unregister_request activity_name email st) = Inl x"
  then show "snd (unregister_request activity_name email st) = st"
    by (rule unregister_request_failure)
qed

theorem unregister_failures_witness:
  "''Golf'' \<notin> a_name ` set (activities full_club) \<and>
   unregister_request ''Golf'' ''a@e.edu'' full_club =
     (Inl (HTTPException 404 ''Activity not found''), full_club) \<and>
   NotFound (fst (unregister_request ''Golf'' ''a@e.edu'' full_club)) \<and>
   ''b@e.edu'' \<notin> s_email ` set (students full_club) \<and>
   unregister_request ''Chess Club'' ''b@e.edu'' full_club =
     (Inl (HTTPException 404 ''Student not found''), full_club) \<and>
   NotFound (fst (unregister_request ''Chess Club'' ''b@e.edu'' full_club)) \<and>
   unregister_request ''Chess Club'' ''a@e.edu'' (full_club\<lparr>participations := []\<rparr>) =
     (Inl (HTTPException 400 ''Student is not signed up for this activity''),
      full_club\<lparr>participations := []\<rparr>) \<and>
   Conflict (fst (unregister_request ''Chess Club'' ''a@e.edu''
      (full_club\<lparr>participations := []\<rparr>)))"
proof -
  have 1: "''Golf'' \<notin> a_name ` set (activities full_club)"
    and 2: "''b@e.edu'' \<notin> s_email ` set (students full_club)"
    by (simp_all add: full_club_def)
  have 3: "unregister_request ''Golf'' ''a@e.edu'' full_club =
     (Inl (HTTPException 404 ''Activity not found''), full_club)"
    and 4: "unregister_request ''Chess Club'' ''b@e.edu'' full_club =
     (Inl (HTTPException 404 ''Student not found''), full_club)"
    and 5: "unregister_request ''Chess Club'' ''a@e.edu'' (full_club\<lparr>participations := []\<rparr>) =
     (Inl (HTTPException 400 ''Student is not signed up for this activity''),
      full_club\<lparr>participations := []\<rparr>)"
    by (simp_all add: run_simps)
  from 1 2 3 4 5
    unregister_failures [of "''Golf''" full_club "''a@e.edu''"]
    unregister_failures [of "''Chess Club''" full_club "''b@e.edu''"]
    unregister_failures [of "''Chess Club''" "full_club\<lparr>participations := []\<rparr>" "''a@e.edu''"]
  show ?thesis by (simp add: NotFound_def Conflict_def)
qed

text \<open>
  C10. Every successful unregistration deletes exactly one row of the participations
  table, a row that joins the student found by the email to the activity found by the
  name; the other participations stay, in their order, and the students and activities
  tables are unchanged. The key column of the participations table is its primary key,
  so the keys are distinct.
\<close>

theorem unregister_deletes_one_row:
  assumes d: "distinct (map p_id (participations st))"
    and ok: "unregister_request activity_name email st = (Inr m, st')"
  shows "students st' = students st \<and> activities st' = activities st \<and>
         participations_seq st' = participations_seq st \<and>
         (\<exists>a s p. find (\<lambda>a. a_name a = activity_name) (activities st) = Some a \<and>
                  find (\<lambda>s. s_email s = email) (students st) = Some s \<and>
                  p \<in> set (participations st) \<and>
                  p_student_id p = s_id s \<and> p_activity_id p = a_id a \<and>
                  participations st' = remove1 p (participations st) \<and>
                  length (participations st') + 1 = length (participations st))"
proof -
  from ok obtain a s p where a: "find (\<lambda>a. a_name a = activity_name) (activities st) = Some a"
    and s: "find (\<lambda>s. s_email s = email) (students st) = Some s"
    and p: "find (\<lambda>p. p_student_id p = s_id s \<and> p_activity_id p = a_id a)
              (participations st) = Some p"
    and st': "st' = delete_row p st"
    by (auto simp: unregister_request_unfold split: option.splits)
  from p have pin: "p \<in> set (participations st)"
    and pp: "p_student_id p = s_id s \<and> p_activity_id p = a_id a"
    by (auto dest: find_SomeD)
  from d pin have r: "filter (\<lambda>q. p_id q \<noteq> p_id p) (participations st)
                      = remove1 p (participations st)"
    by (rule filter_remove1)
  from pin have "length (remove1 p (participations st)) + 1 = length (participations st)"
    using length_pos_if_in_set [OF pin] by (simp add: length_remove1)
  with a s pin pp r st' show ?thesis
    by (auto simp: delete_row_def)
qed

theorem unregister_deletes_one_row_witness:
  "distinct (map p_id (participations full_club)) \<and>
   unregister_request ''Chess Club'' ''a@e.edu'' full_club =
     (Inr ''Unregistered a@e.edu from Chess Club'', full_club\<lparr>participations := []\<rparr>) \<and>
   students (full_club\<lparr>participations := []\<rparr>) = students full_club \<and>
   activities (full_club\<lparr>participations := []\<rparr>) = activities full_club \<and>
   length (participations (full_club\<lparr>participations := []\<rparr>)) + 1
     = length (participations full_club)"
proof -
  have d: "distinct (map p_id (participations full_club))"
    by (simp add: full_club_def)
  have ok: "unregister_request ''Chess Club'' ''a@e.edu'' full_club =
     (Inr ''Unregistered a@e.edu from Chess Club'', full_club\<lparr>participations := []\<rparr>)"
    by (simp add: run_simps)
  from unregister_deletes_one_row [OF d ok] d ok show ?thesis by auto
qed

text \<open>
  C4. When a signup succeeds and the unregistration of the same activity name and
  email that follows it succeeds, the participant count that the listing reports for
  the activity is back at its value before the signup.
\<close>

theorem signup_unregister_round_trip:
  assumes su: "signup_request activity_name email st = (Inr m, st1)"
    and un: "unregister_request activity_name email st1 = (Inr m', st2)"
  shows "\<exists>info info'. fst (list_request st) activity_name = Some info \<and>
           fst (list_request st2) activity_name = Some info' \<and>
           participants info' = participants info"
proof -
  from signup_success_form [OF su] obtain a
    where a: "find (\<lambda>a. a_name a = activity_name) (activities st) = Some a"
      and np: "find (\<lambda>p. p_student_id p = student_key email st \<and> p_activity_id p = a_id a)
                 (participations st) = None"
      and st1: "st1 = insert_row (NewParticipation (student_key email st) (a_id a))
                        (ensure_student email st)"
    by blast
  let ?k = "next_autoincrement (participations_seq st) (map p_id (participations st))"
  let ?p = "\<lparr>p_id = ?k, p_student_id = student_key email st, p_activity_id = a_id a\<rparr>"
  note after = after_signup [OF st1]
  from ensure_student_find [of email st] obtain s
    where s: "find (\<lambda>s. s_email s = email) (students st1) = Some s"
      and sk: "s_id s = student_key email st"
    using after(2) by auto
  have a1: "find (\<lambda>a. a_name a = activity_name) (activities st1) = Some a"
    using a after(1) by simp
  have p1: "find (\<lambda>p. p_student_id p = s_id s \<and> p_activity_id p = a_id a)
              (participations st1) = Some ?p"
    using np sk after(3) by (simp add: find_append_None)
  from un a1 s p1 have st2: "st2 = delete_row ?p st1"
    by (simp add: unregister_request_unfold)
  have parts: "participations st2 = participations st"
    using st2 after(3) by (simp add: delete_row_def filter_fresh_key)
  have acts: "activities st2 = activities st"
    using st2 after(1) by (simp add: delete_row_def)
  from acts parts have "fst (list_request st2) = fst (list_request st)"
    by (rule list_request_cong)
  moreover from a obtain info where "fst (list_request st) activity_name = Some info"
    using listed_name by blast
  ultimately show ?thesis by simp
qed

theorem signup_unregister_round_trip_witness:
  "signup_request ''Chess Club'' ''b@e.edu'' open_club
     = (Inr ''Signed up b@e.edu for Chess Club'',
        snd (signup_request ''Chess Club'' ''b@e.edu'' open_club)) \<and>
   unregister_request ''Chess Club'' ''b@e.edu''
       (snd (signup_request ''Chess Club'' ''b@e.edu'' open_club))
     = (Inr ''Unregistered b@e.edu from Chess Club'',
        snd (unregister_request ''Chess Club'' ''b@e.edu''
          (snd (signup_request ''Chess Club'' ''b@e.edu'' open_club)))) \<and>
   map_option participants (fst (list_request open_club) ''Chess Club'') = Some 1 \<and>
   map_option participants
     (fst (list_request (snd (signup_request ''Chess Club'' ''b@e.edu'' open_club)))
        ''Chess Club'') = Some 2 \<and>
   map_option participants
     (fst (list_request (snd (unregister_request ''Chess Club'' ''b@e.edu''
          (snd (signup_request ''Chess Club'' ''b@e.edu'' open_club))))) ''Chess Club'')
     = Some 1"
proof -
  have su: "signup_request ''Chess Club'' ''b@e.edu'' open_club
     = (Inr ''Signed up b@e.edu for Chess Club'',
        snd (signup_request ''Chess Club'' ''b@e.edu'' open_club))"
    by (simp add: run_simps)
  have un: "unregister_request ''Chess Club'' ''b@e.edu''
       (snd (signup_request ''Chess Club'' ''b@e.edu'' open_club))
     = (Inr ''Unregistered b@e.edu from Chess Club'',
        snd (unregister_request ''Chess Club'' ''b@e.edu''
          (snd (signup_request ''Chess Club'' ''b@e.edu'' open_club))))"
    by (simp add: run_simps)
  have before: "map_option participants (fst (list_request open_club) ''Chess Club'') = Some 1"
    by (simp add: run_simps)
  have between: "map_option participants
     (fst (list_request (snd (signup_request ''Chess Club'' ''b@e.edu'' open_club)))
        ''Chess Club'') = Some 2"
    by (simp add: run_simps)
  from signup_unregister_round_trip [OF su un] su un before between show ?thesis
    by auto
qed

text \<open>
  C3. In a database that satisfies the schema's constraints, when the activity exists,
  is below its capacity, and no participation joins a student with the email to it,
  the first signup succeeds, the second signup with the same arguments fails with
  Conflict (``Student is already signed up for this activity'') and changes nothing,
  and after both calls exactly one participation row, hence at most one, joins the
  student to the activity.
\<close>

theorem signup_twice:
  assumes w: "wf_store st"
    and a: "find (\<lambda>a. a_name a = activity_name) (activities st) = Some a"
    and free: "int (length (filter (\<lambda>p. p_activity_id p = a_id a) (participations st)))
                 < a_max_participants a"
    and none: "\<forall>s \<in> set (students st). s_email s = email \<longrightarrow>
                 (\<forall>p \<in> set (participations st).
                    \<not> (p_student_id p = s_id s \<and> p_activity_id p = a_id a))"
  shows "\<exists>st1 s.
           signup_request activity_name email st =
             (Inr (''Signed up '' @ email @ '' for '' @ activity_name), st1) \<and>
           signup_request activity_name email st1 =
             (Inl (HTTPException 400 ''Student is already signed up for this activity''), st1) \<and>
           Conflict (fst (signup_request activity_name email st1)) \<and>
           find (\<lambda>s. s_email s = email) (students st1) = Some s \<and>
           length (filter (\<lambda>p. p_student_id p = s_id s \<and> p_activity_id p = a_id a)
                     (participations st1)) = 1"
proof -
  let ?k = "student_key email st"
  let ?pair = "\<lambda>p. p_student_id p = ?k \<and> p_activity_id p = a_id a"
  have nopair: "\<not> ?pair p" if pin: "p \<in> set (participations st)" for p
  proof (cases "find (\<lambda>s. s_email s = email) (students st)")
    case None
    then have "?k = next_rowid (map s_id (students st))"
      by (rule student_key_new)
    then have "?k \<notin> set (map s_id (students st))"
      using next_rowid_fresh [of "map s_id (students st)"] by simp
    moreover from w pin have "p_student_id p \<in> set (map s_id (students st))"
      by (simp add: wf_store_def)
    ultimately show ?thesis by auto
  next
    case (Some s)
    then have "s \<in> set (students st)" and "s_email s = email" and "?k = s_id s"
      by (auto dest: find_SomeD simp: student_key_def)
    with none pin show ?thesis by auto
  qed
  then have np: "find ?pair (participations st) = None"
    by (simp add: find_None_iff)
  have nf: "filter ?pair (participations st) = []"
    using nopair by (simp add: filter_empty_conv)
  define st1 where "st1 = insert_row (NewParticipation ?k (a_id a)) (ensure_student email st)"
  let ?p = "\<lparr>p_id = next_autoincrement (participations_seq st) (map p_id (participations st)),
             p_student_id = ?k, p_activity_id = a_id a\<rparr>"
  note after = after_signup [OF st1_def]
  have first: "signup_request activity_name email st =
                 (Inr (''Signed up '' @ email @ '' for '' @ activity_name), st1)"
    using a np free by (simp add: signup_request_cases st1_def)
  from ensure_student_find [of email st] obtain s
    where s: "find (\<lambda>s. s_email s = email) (students st1) = Some s"
      and sk: "s_id s = ?k"
    using after(2) by auto
  have k1: "student_key email st1 = ?k"
    using s sk by (simp add: student_key_def)
  have a1: "find (\<lambda>a. a_name a = activity_name) (activities st1) = Some a"
    using a after(1) by simp
  have p1: "find ?pair (participations st1) = Some ?p"
    using np after(3) by (simp add: find_append_None)
  have second: "signup_request activity_name email st1 =
                  (Inl (HTTPException 400 ''Student is already signed up for this activity''), st1)"
    using a1 p1 k1 by (simp add: signup_request_cases)
  have one: "length (filter (\<lambda>p. p_student_id p = s_id s \<and> p_activity_id p = a_id a)
               (participations st1)) = 1"
    using nf sk after(3) by simp
  from first second s one show ?thesis
    by (auto simp: Conflict_def)
qed

theorem signup_twice_witness:
  "wf_store open_club \<and>
   signup_request ''Chess Club'' ''b@e.edu'' open_club =
     (Inr ''Signed up b@e.edu for Chess Club'',
      snd (signup_request ''Chess Club'' ''b@e.edu'' open_club)) \<and>
   signup_request ''Chess Club'' ''b@e.edu''
       (snd (signup_request ''Chess Club'' ''b@e.edu'' open_club)) =
     (Inl (HTTPException 400 ''Student is already signed up for this activity''),
      snd (signup_request ''Chess Club'' ''b@e.edu'' open_club)) \<and>
   length (filter (\<lambda>p. p_student_id p = 2 \<and> p_activity_id p = 1)
     (participations (snd (signup_request ''Chess Club'' ''b@e.edu'' open_club)))) = 1"
proof -
  let ?a = "\<lparr>a_id = 1, a_name = ''Chess Club'', a_description = None, a_schedule = None,
             a_max_participants = 2\<rparr>"
  have w: "wf_store open_club"
    by (simp add: wf_store_def open_club_def full_club_def)
  have a: "find (\<lambda>a. a_name a = ''Chess Club'') (activities open_club) = Some ?a"
    by (simp add: open_club_def)
  have free: "int (length (filter (\<lambda>p. p_activity_id p = a_id ?a) (participations open_club)))
                < a_max_participants ?a"
    by (simp add: open_club_def full_club_def)
  have none: "\<forall>s \<in> set (students open_club). s_email s = ''b@e.edu'' \<longrightarrow>
                 (\<forall>p \<in> set (participations open_club).
                    \<not> (p_student_id p = s_id s \<and> p_activity_id p = a_id ?a))"
    by (simp add: open_club_def full_club_def)
  have s: "find (\<lambda>s. s_email s = ''b@e.edu'')
             (students (snd (signup_request ''Chess Club'' ''b@e.edu'' open_club)))
           = Some \<lparr>s_id = 2, s_email = ''b@e.edu'', s_name = None, s_grade = None,
                   s_class_section = None\<rparr>"
    by (simp add: run_simps ensure_student_def)
  from signup_twice [OF w a free none] w s show ?thesis
    by auto
qed

text \<open>
  C8. The listing maps the name of every activity to its description, schedule and
  maximum, with a participant count equal to the number of participation rows whose
  \<^verbatim>\<open>activity_id\<close> is the activity's key (\<^verbatim>\<open>Activity.name\<close> is a unique column);
  its keys are exactly the activity names. It carries no participant identity: an
  entry has the four fields of \<^typ>\<open>activity_info\<close> and no other, and the result is
  the same whatever the students table holds. The request changes nothing.
\<close>

theorem listing_contents:
  assumes d: "distinct (map a_name (activities st))"
  shows "dom (fst (list_request st)) = a_name ` set (activities st) \<and>
         (\<forall>a \<in> set (activities st).
            fst (list_request st) (a_name a) =
              Some \<lparr>description = a_description a, schedule = a_schedule a,
                    max_participants = a_max_participants a,
                    participants = int (length (filter (\<lambda>p. p_activity_id p = a_id a)
                                                  (participations st)))\<rparr>) \<and>
         fst (list_request (st\<lparr>students := ss\<rparr>)) = fst (list_request st) \<and>
         snd (list_request st) = st"
proof (intro conjI ballI)
  show "dom (fst (list_request st)) = a_name ` set (activities st)"
    by (simp add: list_request_unfold fold_upd_dom)
next
  fix a
  assume "a \<in> set (activities st)"
  with d have "fold (\<lambda>a m. m(a_name a \<mapsto> info_of st a)) (activities st) Map.empty (a_name a)
                 = Some (info_of st a)"
    by (rule fold_upd_distinct)
  then show "fst (list_request st) (a_name a) =
              Some \<lparr>description = a_description a, schedule = a_schedule a,
                    max_participants = a_max_participants a,
                    participants = int (length (filter (\<lambda>p. p_activity_id p = a_id a)
                                                  (participations st)))\<rparr>"
    by (simp add: list_request_unfold info_of_def)
next
  show "fst (list_request (st\<lparr>students := ss\<rparr>)) = fst (list_request st)"
    by (rule list_request_cong) simp_all
next
  show "snd (list_request st) = st"
    by (simp add: list_request_unfold)
qed

theorem listing_contents_witness:
  "distinct (map a_name (activities full_club)) \<and>
   dom (fst (list_request full_club)) = {''Chess Club''} \<and>
   fst (list_request full_club) ''Chess Club'' =
     Some \<lparr>description = None, schedule = None, max_participants = 1, participants = 1\<rparr> \<and>
   fst (list_request (full_club\<lparr>students := []\<rparr>)) = fst (list_request full_club)"
proof -
  have d: "distinct (map a_name (activities full_club))"
    by (simp add: full_club_def)
  from listing_contents [OF d, of "[]"] d show ?thesis
    by (simp add: full_club_def)
qed

text \<open>
  C5. \<^verbatim>\<open>init_db\<close> is idempotent: when the activities table has a row it reports
  ``Database already initialized'' and changes nothing; and a second call, after a
  first call on any database (a fresh one included), is such a call: it leaves the
  tables exactly as the first call left them.
\<close>

lemma init_db_nonempty: "activities (snd (init_db st)) \<noteq> []"
proof (cases "activities st = []")
  case True
  from fold_insert_activities_data [OF True]
  have "map a_id (activities (fold insert_row activities_data st)) \<noteq> []" by simp
  with True show ?thesis by (simp add: init_db_fresh)
next
  case False
  then show ?thesis by (simp add: init_db_initialized)
qed

theorem init_db_idempotent:
  "(activities st \<noteq> [] \<longrightarrow> init_db st = (''Database already initialized'', st)) \<and>
   init_db (snd (init_db st)) = (''Database already initialized'', snd (init_db st))"
  using init_db_initialized [of st] init_db_initialized [OF init_db_nonempty [of st]]
  by simp

theorem init_db_idempotent_witness:
  "activities full_club \<noteq> [] \<and>
   init_db full_club = (''Database already initialized'', full_club) \<and>
   fst (init_db empty_store) = ''Database initialized with sample data'' \<and>
   map a_name (activities (snd (init_db empty_store))) =
     [''Chess Club'', ''Programming Class'', ''Gym Class'', ''Soccer Team'', ''Basketball Team'',
      ''Art Club'', ''Drama Club'', ''Math Club'', ''Debate Team''] \<and>
   snd (init_db (snd (init_db empty_store))) = snd (init_db empty_store)"
proof -
  have 1: "activities full_club \<noteq> []"
    by (simp add: full_club_def)
  have 2: "activities empty_store = []"
    by (simp add: empty_store_def)
  from init_db_idempotent [of full_club] init_db_idempotent [of empty_store] 1
    init_db_fresh [OF 2] fold_insert_activities_data [OF 2]
  show ?thesis by simp
qed

text \<open>
  C2. The claim as stated: for some input, a signup that finds the activity, finds no
  student with the email, creates one and then fails the duplicate or the capacity
  check leaves the new student row in the database after the call. No input does:
  the handler flushes the new row into its own transaction and raises without a
  commit, and \<^verbatim>\<open>get_db\<close> closes the session.
\<close>

lemmas session_simps = signup_for_activity_def get_or_create_student_def query_activity_def
  query_student_def query_participation_def count_participants_def SessionLocal_def add_def
  flush_def commit_def close_def get_db_def signup_request_def

lemma signup_handler_failure:
  assumes a: "find (\<lambda>a. a_name a = activity_name) (activities st) = Some a"
    and s: "find (\<lambda>s. s_email s = email) (students st) = None"
    and r: "signup_for_activity activity_name email (SessionLocal st) = (Inl x, db)"
  shows "status_code x = 400 \<and> txn db = insert_row (NewStudent email) st \<and> persisted db = st"
  using r unfolding session_simps
  by (auto simp: a s Let_def split: option.splits if_splits)

theorem created_student_persists_counterexample:
  "\<not> (\<exists>st activity_name email.
        activity_name \<in> a_name ` set (activities st) \<and>
        email \<notin> s_email ` set (students st) \<and>
        Conflict (fst (signup_request activity_name email st)) \<and>
        email \<in> s_email ` set (students (snd (signup_request activity_name email st))))"
proof
  assume "\<exists>st activity_name email.
        activity_name \<in> a_name ` set (activities st) \<and>
        email \<notin> s_email ` set (students st) \<and>
        Conflict (fst (signup_request activity_name email st)) \<and>
        email \<in> s_email ` set (students (snd (signup_request activity_name email st)))"
  then obtain st activity_name email
    where out: "email \<notin> s_email ` set (students st)"
      and c: "Conflict (fst (signup_request activity_name email st))"
      and kept: "email \<in> s_email ` set (students (snd (signup_request activity_name email st)))"
    by blast
  from c obtain x where "fst (signup_request activity_name email st) = Inl x"
    by (cases "fst (signup_request activity_name email st)") (simp_all add: Conflict_def)
  then have "snd (signup_request activity_name email st) = st"
    by (rule signup_request_failure)
  with out kept show False by simp
qed

text \<open>
  C2, as amended. For every such input the failure is a 400; the new student row is
  in the transaction of the call, where the later checks of the same call read it; the
  committed contents are untouched, and after the call the database is the one before
  it: it holds no student with the email.
\<close>

theorem failed_signup_keeps_no_student:
  assumes "activity_name \<in> a_name ` set (activities st)"
    and "email \<notin> s_email ` set (students st)"
    and "signup_for_activity activity_name email (SessionLocal st) = (Inl x, db)"
  shows "status_code x = 400 \<and>
         email \<in> s_email ` set (students (txn db)) \<and>
         persisted db = st \<and>
         signup_request activity_name email st = (Inl x, st) \<and>
         email \<notin> s_email ` set (students (snd (signup_request activity_name email st)))"
proof -
  from assms(1) obtain a where a: "find (\<lambda>a. a_name a = activity_name) (activities st) = Some a"
    by (cases "find (\<lambda>a. a_name a = activity_name) (activities st)")
      (auto simp: find_None_image)
  from assms(2) have s: "find (\<lambda>s. s_email s = email) (students st) = None"
    by (simp add: find_None_image)
  from signup_handler_failure [OF a s assms(3)]
  have x: "status_code x = 400" and t: "txn db = insert_row (NewStudent email) st"
    and p: "persisted db = st"
    by simp_all
  from assms(3) p have req: "signup_request activity_name email st = (Inl x, st)"
    by (simp add: signup_request_def get_db_def close_def)
  from t have "email \<in> s_email ` set (students (txn db))"
    by simp
  with x p req assms(2) show ?thesis by simp
qed

theorem failed_signup_keeps_no_student_witness:
  "''Chess Club'' \<in> a_name ` set (activities full_club) \<and>
   ''b@e.edu'' \<notin> s_email ` set (students full_club) \<and>
   fst (signup_for_activity ''Chess Club'' ''b@e.edu'' (SessionLocal full_club))
     = Inl (HTTPException 400 ''Activity is full'') \<and>
   ''b@e.edu'' \<in> s_email ` set (students (txn (snd
      (signup_for_activity ''Chess Club'' ''b@e.edu'' (SessionLocal full_club))))) \<and>
   signup_request ''Chess Club'' ''b@e.edu'' full_club
     = (Inl (HTTPException 400 ''Activity is full''), full_club) \<and>
   ''b@e.edu'' \<notin> s_email ` set (students (snd
      (signup_request ''Chess Club'' ''b@e.edu'' full_club)))"
proof -
  have 1: "''Chess Club'' \<in> a_name ` set (activities full_club)"
    and 2: "''b@e.edu'' \<notin> s_email ` set (students full_club)"
    by (simp_all add: full_club_def)
  have 3: "signup_for_activity ''Chess Club'' ''b@e.edu'' (SessionLocal full_club)
     = (Inl (HTTPException 400 ''Activity is full''),
        snd (signup_for_activity ''Chess Club'' ''b@e.edu'' (SessionLocal full_club)))"
    by (simp add: session_simps full_club_def Let_def next_rowid_def)
  from 3 have 4: "fst (signup_for_activity ''Chess Club'' ''b@e.edu'' (SessionLocal full_club))
     = Inl (HTTPException 400 ''Activity is full'')"
    by (metis fst_conv)
  from failed_signup_keeps_no_student [OF 1 2 3] 1 2 4 show ?thesis
    by simp
qed

end
